theory Spec2Isabelle
  imports Complex_Main
begin

section \<open>The taxi database set-up script\<close>

text \<open>
  The script \<^verbatim>\<open>setup_taxi_database.py\<close> downloads a zone lookup table and monthly
  trip files and loads them into two tables of a DuckDB database file. The model below
  follows the script statement by statement. What lies outside the script is a parameter:
  the outcome of the HTTP request, and what the engine reads from a CSV or Parquet file
  (either an error or the rows of the file in scan order). The SQL statements of the
  script are functions on an explicit database state; a statement that raises leaves the
  state as it was. Two readings of the engine are fixed here: a \<^verbatim>\<open>SELECT\<close> without
  \<^verbatim>\<open>ORDER BY\<close> yields the rows in scan order, and the reporting queries at the end of the
  run raise only when a table they read is missing.
\<close>

subsection \<open>Errors\<close>

datatype error =
    IndexError
  | ValueError
  | EOFError
  | RequestException
  | IOException
  | CatalogException
  | ConstraintException

subsection \<open>Data model\<close>

text \<open>A row of the downloaded zone lookup file, by its source column names.\<close>

record csv_row =
  LocationID :: int
  Zone :: string
  Borough :: string
  csv_service_zone :: string

text \<open>A row of the \<^verbatim>\<open>zones\<close> table.\<close>

record zone =
  location_id :: int
  zone_name :: string
  borough :: string
  service_zone :: string

text \<open>
  The six columns that a trip file and the \<^verbatim>\<open>trips\<close> table have under the same name.
  Every column is nullable. Floating-point columns are modelled as reals: the script only
  compares them with constants.
\<close>

record measures =
  passenger_count :: "int option"
  trip_distance :: "real option"
  fare_amount :: "real option"
  tip_amount :: "real option"
  total_amount :: "real option"
  payment_type :: "int option"

text \<open>A row of a monthly Parquet file: the columns the script selects.\<close>

record parquet_row = measures +
  tpep_pickup_datetime :: "int option"
  tpep_dropoff_datetime :: "int option"
  PULocationID :: "int option"
  DOLocationID :: "int option"

text \<open>A row of the \<^verbatim>\<open>trips\<close> table.\<close>

record trip = measures +
  trip_id :: "int option"
  pickup_datetime :: "int option"
  dropoff_datetime :: "int option"
  pickup_location_id :: "int option"
  dropoff_location_id :: "int option"

text \<open>
  The database file: each table is absent (\<open>None\<close>) or holds its rows in insertion
  order; \<open>connected\<close> tells whether the connection \<^verbatim>\<open>con\<close> is open.
\<close>

record database =
  zones :: "zone list option"
  trips :: "trip list option"
  connected :: bool

text \<open>
  The world outside the script. \<open>zone_response\<close> is the outcome of the request for the
  zone lookup, of its status check and of writing the temporary file: an error, or what
  \<^verbatim>\<open>read_csv_auto\<close> will later find in that file (again an error or rows).
  \<open>parquet_files\<close> gives for a URL what \<^verbatim>\<open>read_parquet\<close> yields.
\<close>

record world =
  zone_response :: "error + (error + csv_row list)"
  parquet_files :: "string \<Rightarrow> error + parquet_row list"

subsection \<open>Zone lookup\<close>

definition download_zone_lookup :: "world \<Rightarrow> bool" where
  "download_zone_lookup w = (case zone_response w of Inl e \<Rightarrow> False | Inr f \<Rightarrow> True)"

definition read_csv_auto :: "world \<Rightarrow> error + csv_row list" where
  "read_csv_auto w = (case zone_response w of Inl e \<Rightarrow> Inl IOException | Inr f \<Rightarrow> f)"

text \<open>\<^verbatim>\<open>CREATE TABLE zones (location_id INTEGER PRIMARY KEY, ...)\<close>\<close>

definition create_table_zones :: "database \<Rightarrow> error + database" where
  "create_table_zones db =
     (case zones db of
        Some zs \<Rightarrow> Inl CatalogException
      | None \<Rightarrow> Inr (db\<lparr>zones := Some []\<rparr>))"

text \<open>\<^verbatim>\<open>INSERT INTO zones VALUES (?, ?, ?, ?)\<close>, with the primary key checked.\<close>

definition insert_zone :: "zone \<Rightarrow> database \<Rightarrow> error + database" where
  "insert_zone z db =
     (case zones db of
        None \<Rightarrow> Inl CatalogException
      | Some zs \<Rightarrow>
          if location_id z \<in> set (map location_id zs) then Inl ConstraintException
          else Inr (db\<lparr>zones := Some (zs @ [z])\<rparr>))"

definition mk_zone :: "int \<Rightarrow> string \<Rightarrow> string \<Rightarrow> string \<Rightarrow> zone" where
  "mk_zone i n b s = \<lparr>location_id = i, zone_name = n, borough = b, service_zone = s\<rparr>"

definition zones_data :: "zone list" where
  "zones_data =
    [mk_zone 1 ''Newark Airport'' ''EWR'' ''EWR'',
     mk_zone 4 ''Alphabet City'' ''Manhattan'' ''Yellow Zone'',
     mk_zone 12 ''Battery Park'' ''Manhattan'' ''Yellow Zone'',
     mk_zone 13 ''Battery Park City'' ''Manhattan'' ''Yellow Zone'',
     mk_zone 43 ''Central Park'' ''Manhattan'' ''Yellow Zone'',
     mk_zone 45 ''Chinatown'' ''Manhattan'' ''Yellow Zone'',
     mk_zone 79 ''East Village'' ''Manhattan'' ''Yellow Zone'',
     mk_zone 87 ''Financial District North'' ''Manhattan'' ''Yellow Zone'',
     mk_zone 88 ''Financial District South'' ''Manhattan'' ''Yellow Zone'',
     mk_zone 100 ''Garment District'' ''Manhattan'' ''Yellow Zone'',
     mk_zone 107 ''Gramercy'' ''Manhattan'' ''Yellow Zone'',
     mk_zone 113 ''Greenwich Village North'' ''Manhattan'' ''Yellow Zone'',
     mk_zone 114 ''Greenwich Village South'' ''Manhattan'' ''Yellow Zone'',
     mk_zone 125 ''Hell's Kitchen'' ''Manhattan'' ''Yellow Zone'',
     mk_zone 137 ''Kips Bay'' ''Manhattan'' ''Yellow Zone'',
     mk_zone 140 ''Lenox Hill East'' ''Manhattan'' ''Yellow Zone'',
     mk_zone 141 ''Lenox Hill West'' ''Manhattan'' ''Yellow Zone'',
     mk_zone 142 ''Lincoln Square East'' ''Manhattan'' ''Yellow Zone'',
     mk_zone 143 ''Lincoln Square West'' ''Manhattan'' ''Yellow Zone'',
     mk_zone 144 ''Little Italy'' ''Manhattan'' ''Yellow Zone'',
     mk_zone 148 ''Lower East Side'' ''Manhattan'' ''Yellow Zone'',
     mk_zone 161 ''Midtown Center'' ''Manhattan'' ''Yellow Zone'',
     mk_zone 162 ''Midtown East'' ''Manhattan'' ''Yellow Zone'',
     mk_zone 163 ''Midtown North'' ''Manhattan'' ''Yellow Zone'',
     mk_zone 164 ''Midtown South'' ''Manhattan'' ''Yellow Zone'',
     mk_zone 170 ''Murray Hill'' ''Manhattan'' ''Yellow Zone'',
     mk_zone 186 ''Penn Station'' ''Manhattan'' ''Yellow Zone'',
     mk_zone 224 ''Times Square'' ''Manhattan'' ''Yellow Zone'',
     mk_zone 229 ''Tribeca'' ''Manhattan'' ''Yellow Zone'',
     mk_zone 230 ''Two Bridges'' ''Manhattan'' ''Yellow Zone'',
     mk_zone 231 ''UN/Turtle Bay South'' ''Manhattan'' ''Yellow Zone'',
     mk_zone 232 ''Union Square'' ''Manhattan'' ''Yellow Zone'',
     mk_zone 233 ''Upper East Side North'' ''Manhattan'' ''Yellow Zone'',
     mk_zone 234 ''Upper East Side South'' ''Manhattan'' ''Yellow Zone'',
     mk_zone 236 ''Upper West Side North'' ''Manhattan'' ''Yellow Zone'',
     mk_zone 237 ''Upper West Side South'' ''Manhattan'' ''Yellow Zone'',
     mk_zone 249 ''Yorkville East'' ''Manhattan'' ''Yellow Zone'',
     mk_zone 250 ''Yorkville West'' ''Manhattan'' ''Yellow Zone'']"

text \<open>The loop \<^verbatim>\<open>for zone in zones_data: con.execute("INSERT ...", zone)\<close>: the first
  insert that raises ends it.\<close>

fun insert_zones :: "zone list \<Rightarrow> database \<Rightarrow> error + database" where
  "insert_zones [] db = Inr db"
| "insert_zones (z # zs) db =
     (case insert_zone z db of Inl e \<Rightarrow> Inl e | Inr db' \<Rightarrow> insert_zones zs db')"

definition create_minimal_zones :: "database \<Rightarrow> error + database" where
  "create_minimal_zones db =
     (case create_table_zones db of
        Inl e \<Rightarrow> Inl e
      | Inr db' \<Rightarrow> insert_zones zones_data db')"

text \<open>The column renaming of \<^verbatim>\<open>CREATE TABLE zones AS SELECT LocationID as location_id, ...\<close>\<close>

definition rename_zone :: "csv_row \<Rightarrow> zone" where
  "rename_zone r =
     \<lparr>location_id = LocationID r, zone_name = Zone r, borough = Borough r,
      service_zone = csv_service_zone r\<rparr>"

definition create_zones_as_select :: "world \<Rightarrow> database \<Rightarrow> error + database" where
  "create_zones_as_select w db =
     (case zones db of
        Some zs \<Rightarrow> Inl CatalogException
      | None \<Rightarrow>
          (case read_csv_auto w of
             Inl e \<Rightarrow> Inl e
           | Inr rows \<Rightarrow> Inr (db\<lparr>zones := Some (map rename_zone rows)\<rparr>)))"

text \<open>\<^verbatim>\<open>SELECT COUNT(*) FROM zones\<close>\<close>

definition count_zones :: "database \<Rightarrow> error + nat" where
  "count_zones db = (case zones db of None \<Rightarrow> Inl CatalogException | Some zs \<Rightarrow> Inr (length zs))"

text \<open>
  Lines 117 to 139 of \<^verbatim>\<open>setup_database\<close>: download, drop the table, then load the file
  or, when the download failed or the load raises, the fixed rows. An exception of
  \<^verbatim>\<open>create_minimal_zones\<close> is not caught there.
\<close>

definition load_zones :: "world \<Rightarrow> database \<Rightarrow> error + database" where
  "load_zones w db =
     (let zones_downloaded = download_zone_lookup w;
          db1 = db\<lparr>zones := None\<rparr>
      in if zones_downloaded then
           (case create_zones_as_select w db1 of
              Inl e \<Rightarrow> create_minimal_zones db1
            | Inr db2 \<Rightarrow>
                (case count_zones db2 of
                   Inl e \<Rightarrow> create_minimal_zones db2
                 | Inr zone_count \<Rightarrow> Inr db2))
         else create_minimal_zones db1)"

subsection \<open>Months and source URLs\<close>

text \<open>Python's \<^verbatim>\<open>range(n)\<close> for an integer \<open>n\<close>: empty when \<open>n \<le> 0\<close>.\<close>

definition range :: "int \<Rightarrow> int list" where
  "range n = [0..n - 1]"

text \<open>
  Lines 145 to 152:
  \<^verbatim>\<open>for i in range(months_to_load): month = i + 1; if month <= 12: months.append((current_year, month))\<close>
\<close>

definition current_year :: int where
  "current_year = 2024"

definition months :: "int \<Rightarrow> (int \<times> int) list" where
  "months months_to_load =
     map (\<lambda>month. (current_year, month))
       (filter (\<lambda>month. month \<le> 12) (map (\<lambda>i. i + 1) (range months_to_load)))"

definition digit_char :: "nat \<Rightarrow> char" where
  "digit_char d = ''0123456789'' ! d"

text \<open>The decimal digits of a natural number, most significant first.\<close>

fun digits :: "nat \<Rightarrow> string" where
  "digits n = (if n < 10 then [digit_char n] else digits (n div 10) @ [digit_char (n mod 10)])"

declare digits.simps [simp del]

text \<open>\<^verbatim>\<open>f"{year}"\<close>: the decimal text of an integer.\<close>

definition str :: "int \<Rightarrow> string" where
  "str n = (if n < 0 then CHR ''-'' # digits (nat (- n)) else digits (nat n))"

text \<open>\<^verbatim>\<open>f"{month:02d}"\<close>: the sign, then zeros up to a total width of 2, then the digits.\<close>

definition format_02d :: "int \<Rightarrow> string" where
  "format_02d n =
     (let ds = digits (nat \<bar>n\<bar>);
          sign = (if n < 0 then [CHR ''-''] else [])
      in sign @ replicate (2 - length sign - length ds) (CHR ''0'') @ ds)"

definition make_url :: "int \<times> int \<Rightarrow> string" where
  "make_url ym =
     ''https://d37ci6vzurychx.cloudfront.net/trip-data/yellow_tripdata_'' @ str (fst ym) @
     ''-'' @ format_02d (snd ym) @ ''.parquet''"

definition make_urls :: "int \<Rightarrow> string list" where
  "make_urls months_to_load = map make_url (months months_to_load)"

subsection \<open>Loading trips\<close>

text \<open>
  SQL comparisons and \<^verbatim>\<open>AND\<close> are three-valued: a comparison with \<^verbatim>\<open>NULL\<close> is
  \<^verbatim>\<open>NULL\<close>, and \<^verbatim>\<open>WHERE\<close> keeps a row only when the condition is true.
\<close>

definition sql_gt :: "('a::linorder) option \<Rightarrow> 'a \<Rightarrow> bool option" where
  "sql_gt x c = (case x of None \<Rightarrow> None | Some v \<Rightarrow> Some (v > c))"

definition sql_lt :: "('a::linorder) option \<Rightarrow> 'a \<Rightarrow> bool option" where
  "sql_lt x c = (case x of None \<Rightarrow> None | Some v \<Rightarrow> Some (v < c))"

definition sql_le :: "('a::linorder) option \<Rightarrow> 'a \<Rightarrow> bool option" where
  "sql_le x c = (case x of None \<Rightarrow> None | Some v \<Rightarrow> Some (v \<le> c))"

fun sql_and :: "bool option \<Rightarrow> bool option \<Rightarrow> bool option" where
  "sql_and (Some False) q = Some False"
| "sql_and p (Some False) = Some False"
| "sql_and (Some True) (Some True) = Some True"
| "sql_and p q = None"

text \<open>The \<^verbatim>\<open>WHERE\<close> clause shared by the two loading statements (lines 193-198, 223-228).\<close>

definition where_clause :: "parquet_row \<Rightarrow> bool option" where
  "where_clause r =
     sql_and (sql_gt (fare_amount r) 0)
    (sql_and (sql_lt (fare_amount r) 500)
    (sql_and (sql_gt (trip_distance r) 0)
    (sql_and (sql_lt (trip_distance r) 100)
    (sql_and (sql_gt (passenger_count r) 0)
             (sql_le (passenger_count r) 6)))))"

definition keeps :: "parquet_row \<Rightarrow> bool" where
  "keeps r = (where_clause r = Some True)"

text \<open>The select list: the renamed columns, with the given \<open>trip_id\<close>.\<close>

definition select_row :: "int option \<Rightarrow> parquet_row \<Rightarrow> trip" where
  "select_row tid r =
     \<lparr>passenger_count = passenger_count r,
      trip_distance = trip_distance r,
      fare_amount = fare_amount r,
      tip_amount = tip_amount r,
      total_amount = total_amount r,
      payment_type = payment_type r,
      trip_id = tid,
      pickup_datetime = tpep_pickup_datetime r,
      dropoff_datetime = tpep_dropoff_datetime r,
      pickup_location_id = PULocationID r,
      dropoff_location_id = DOLocationID r\<rparr>"

text \<open>\<^verbatim>\<open>a + b\<close> in SQL: \<^verbatim>\<open>NULL\<close> when an operand is.\<close>

definition sql_add :: "int option \<Rightarrow> int option \<Rightarrow> int option" where
  "sql_add a b =
     (case a of None \<Rightarrow> None | Some x \<Rightarrow> (case b of None \<Rightarrow> None | Some y \<Rightarrow> Some (x + y)))"

text \<open>\<^verbatim>\<open>SELECT MAX(trip_id) FROM trips\<close>: the largest value that is not \<^verbatim>\<open>NULL\<close>, and
  \<^verbatim>\<open>NULL\<close> when there is none.\<close>

fun sql_max :: "int option list \<Rightarrow> int option" where
  "sql_max [] = None"
| "sql_max (None # xs) = sql_max xs"
| "sql_max (Some v # xs) = (case sql_max xs of None \<Rightarrow> Some v | Some m \<Rightarrow> Some (max v m))"

text \<open>
  \<^verbatim>\<open>ROW_NUMBER() OVER ()\<close> numbers the rows that pass the \<^verbatim>\<open>WHERE\<close> clause from 1, in
  scan order; \<^verbatim>\<open>LIMIT\<close> then keeps the first rows. \<open>offset\<close> is what the statement adds
  to the row number: \<open>Some 0\<close> stands for the first statement, which adds nothing.
\<close>

definition select_trips :: "int option \<Rightarrow> nat \<Rightarrow> parquet_row list \<Rightarrow> trip list" where
  "select_trips offset limit rows =
     take limit
       (map (\<lambda>(row_number, r). select_row (sql_add (Some (int row_number)) offset) r)
          (enumerate 1 (filter keeps rows)))"

text \<open>\<^verbatim>\<open>CREATE TABLE trips AS SELECT ROW_NUMBER() OVER () as trip_id, ... LIMIT 100000\<close>\<close>

definition create_trips_as_select :: "world \<Rightarrow> string \<Rightarrow> database \<Rightarrow> error + database" where
  "create_trips_as_select w url db =
     (case trips db of
        Some ts \<Rightarrow> Inl CatalogException
      | None \<Rightarrow>
          (case parquet_files w url of
             Inl e \<Rightarrow> Inl e
           | Inr rows \<Rightarrow> Inr (db\<lparr>trips := Some (select_trips (Some 0) 100000 rows)\<rparr>)))"

text \<open>\<^verbatim>\<open>INSERT INTO trips SELECT ROW_NUMBER() OVER () + (SELECT MAX(trip_id) FROM trips) as trip_id, ... LIMIT 50000\<close>\<close>

definition insert_into_trips :: "world \<Rightarrow> string \<Rightarrow> database \<Rightarrow> error + database" where
  "insert_into_trips w url db =
     (case trips db of
        None \<Rightarrow> Inl CatalogException
      | Some ts \<Rightarrow>
          (case parquet_files w url of
             Inl e \<Rightarrow> Inl e
           | Inr rows \<Rightarrow>
               Inr (db\<lparr>trips := Some (ts @ select_trips (sql_max (map trip_id ts)) 50000 rows)\<rparr>)))"

text \<open>The loop over \<^verbatim>\<open>urls[1:]\<close>: a statement that raises is logged and the loop goes on.\<close>

fun load_additional :: "world \<Rightarrow> string list \<Rightarrow> database \<Rightarrow> database" where
  "load_additional w [] db = db"
| "load_additional w (url # urls) db =
     (case insert_into_trips w url db of
        Inl e \<Rightarrow> load_additional w urls db
      | Inr db' \<Rightarrow> load_additional w urls db')"

text \<open>
  The verification and reporting queries (lines 236 to 314) read the two tables and
  change nothing; they raise when a table is missing. The counts are what the script keeps.
\<close>

definition report :: "database \<Rightarrow> error + nat \<times> nat" where
  "report db =
     (case trips db of
        None \<Rightarrow> Inl CatalogException
      | Some ts \<Rightarrow>
          (case zones db of
             None \<Rightarrow> Inl CatalogException
           | Some zs \<Rightarrow> Inr (length ts, length zs)))"

text \<open>
  The body of the \<^verbatim>\<open>try\<close> of lines 170 to 314: its outcome, and the database as the
  body leaves it.
\<close>

definition try_load_trips ::
  "world \<Rightarrow> string list \<Rightarrow> database \<Rightarrow> (error + nat \<times> nat) \<times> database" where
  "try_load_trips w urls db =
     (case urls of
        [] \<Rightarrow> (Inl IndexError, db)
      | first_url # rest \<Rightarrow>
          (case create_trips_as_select w first_url db of
             Inl e \<Rightarrow> (Inl e, db)
           | Inr db1 \<Rightarrow>
               (let db2 = load_additional w rest db1 in (report db2, db2))))"

text \<open>
  \<^verbatim>\<open>setup_database(db_path, months_to_load)\<close>. \<open>db\<close> is the database file as the run
  finds it. The result is \<open>Inl\<close> for an exception that leaves the function, otherwise the
  returned flag and the database as the run leaves it.
\<close>

definition setup_database :: "world \<Rightarrow> database \<Rightarrow> int \<Rightarrow> error + bool \<times> database" where
  "setup_database w db months_to_load =
     (let con = db\<lparr>connected := True\<rparr> in
      case load_zones w con of
        Inl e \<Rightarrow> Inl e
      | Inr con1 \<Rightarrow>
          (let con2 = con1\<lparr>trips := None\<rparr>;
               urls = make_urls months_to_load
           in case try_load_trips w urls con2 of
                (Inl e, con3) \<Rightarrow> Inr (False, con3\<lparr>connected := False\<rparr>)
              | (Inr counts, con3) \<Rightarrow> Inr (True, con3\<lparr>connected := False\<rparr>)))"

subsection \<open>The entry point\<close>

text \<open>What \<^verbatim>\<open>input()\<close> meets: a line, Ctrl-C, or the end of the input.\<close>

datatype console = Line string | KeyboardInterrupt | EndOfFile

definition is_space :: "char \<Rightarrow> bool" where
  "is_space c = (c \<in> set [CHR '' '', CHR 0x09, CHR 0x0A, CHR 0x0B, CHR 0x0C, CHR 0x0D,
                            CHR 0x1C, CHR 0x1D, CHR 0x1E, CHR 0x1F])"

text \<open>\<^verbatim>\<open>str.strip()\<close>\<close>

definition strip :: "string \<Rightarrow> string" where
  "strip s = rev (dropWhile is_space (rev (dropWhile is_space s)))"

definition is_digit :: "char \<Rightarrow> bool" where
  "is_digit c = (c \<in> set ''0123456789'')"

definition digit_value :: "char \<Rightarrow> int" where
  "digit_value c = int (of_char c) - int (of_char (CHR ''0''))"

text \<open>
  The digits of a decimal literal after its first digit: digits, with single underscores
  allowed between two digits.
\<close>

fun literal_tail :: "int \<Rightarrow> string \<Rightarrow> int option" where
  "literal_tail acc [] = Some acc"
| "literal_tail acc [c] = (if is_digit c then Some (acc * 10 + digit_value c) else None)"
| "literal_tail acc (c # d # cs) =
     (if is_digit c then literal_tail (acc * 10 + digit_value c) (d # cs)
      else if c = CHR ''_'' \<and> is_digit d then literal_tail acc (d # cs)
      else None)"

definition literal :: "string \<Rightarrow> int option" where
  "literal s =
     (case s of
        [] \<Rightarrow> None
      | c # cs \<Rightarrow> if is_digit c then literal_tail (digit_value c) cs else None)"

text \<open>
  \<^verbatim>\<open>int(text)\<close> on ASCII text: surrounding white space, an optional sign, a decimal
  literal. \<open>None\<close> is \<^verbatim>\<open>ValueError\<close>.
\<close>

definition py_int :: "string \<Rightarrow> int option" where
  "py_int s =
     (case strip s of
        [] \<Rightarrow> None
      | c # cs \<Rightarrow>
          if c = CHR ''-'' then map_option uminus (literal cs)
          else if c = CHR ''+'' then literal cs
          else literal (c # cs))"

text \<open>
  Lines 364 to 377: the prompt. \<^verbatim>\<open>ValueError\<close> and \<^verbatim>\<open>KeyboardInterrupt\<close> are caught;
  the end of the input is not.
\<close>

definition ask_months :: "console \<Rightarrow> error + int" where
  "ask_months c =
     (case c of
        KeyboardInterrupt \<Rightarrow> Inr 3
      | EndOfFile \<Rightarrow> Inl EOFError
      | Line typed \<Rightarrow>
          (let months_input = strip typed in
           if months_input = [] then Inr 3
           else
             (case py_int months_input of
                None \<Rightarrow> Inr 3
              | Some months_to_load \<Rightarrow>
                  if months_to_load < 1 then Inr 1
                  else if months_to_load > 12 then Inr 12
                  else Inr months_to_load)))"



subsection \<open>Properties of rows and tables\<close>

text \<open>A nullable value is present and satisfies a condition.\<close>

definition holds :: "'a option \<Rightarrow> ('a \<Rightarrow> bool) \<Rightarrow> bool" where
  "holds x P = (case x of None \<Rightarrow> False | Some v \<Rightarrow> P v)"

text \<open>
  The three quality conditions on a row, as the \<^verbatim>\<open>WHERE\<close> clause has them: fare in (0,500),
  distance in (0,100), passenger count above 0 and at most 6.
\<close>

definition quality :: "'a measures_scheme \<Rightarrow> bool" where
  "quality t \<longleftrightarrow>
     holds (fare_amount t) (\<lambda>f. 0 < f \<and> f < 500) \<and>
     holds (trip_distance t) (\<lambda>d. 0 < d \<and> d < 100) \<and>
     holds (passenger_count t) (\<lambda>p. 0 < p \<and> p \<le> 6)"

text \<open>
  What a monthly file contributes to the table, without the \<open>trip_id\<close>: nothing when
  reading it fails, otherwise its first \<open>cap\<close> rows that pass the conditions.
\<close>

definition kept_rows :: "world \<Rightarrow> nat \<Rightarrow> string \<Rightarrow> trip list" where
  "kept_rows w cap url =
     (case parquet_files w url of
        Inl e \<Rightarrow> []
      | Inr rows \<Rightarrow> map (select_row None) (take cap (filter keeps rows)))"

text \<open>The rows of the table with the \<open>trip_id\<close> column blanked.\<close>

definition erase_ids :: "trip list \<Rightarrow> trip list" where
  "erase_ids ts = map (\<lambda>t. t\<lparr>trip_id := None\<rparr>) ts"

subsection \<open>Concrete runs\<close>

text \<open>A database file without tables, rows of a trip file, and worlds for the examples.\<close>

definition empty_database :: database where
  "empty_database = \<lparr>zones = None, trips = None, connected = False\<rparr>"

definition sample_row :: "real \<Rightarrow> real \<Rightarrow> int \<Rightarrow> parquet_row" where
  "sample_row fare miles pc =
     \<lparr>passenger_count = Some pc, trip_distance = Some miles, fare_amount = Some fare,
      tip_amount = Some 0, total_amount = Some fare, payment_type = Some 1,
      tpep_pickup_datetime = Some 0, tpep_dropoff_datetime = Some 600,
      PULocationID = Some 161, DOLocationID = Some 237\<rparr>"

definition offline_world :: world where
  "offline_world = \<lparr>zone_response = Inl RequestException, parquet_files = (\<lambda>url. Inl IOException)\<rparr>"

definition two_zone_rows :: "csv_row list" where
  "two_zone_rows =
     [\<lparr>LocationID = 1, Zone = ''Newark Airport'', Borough = ''EWR'', csv_service_zone = ''EWR''\<rparr>,
      \<lparr>LocationID = 2, Zone = ''Jamaica Bay'', Borough = ''Queens'', csv_service_zone = ''Boro Zone''\<rparr>]"

definition sample_world :: world where
  "sample_world =
     \<lparr>zone_response = Inr (Inr two_zone_rows),
      parquet_files = (\<lambda>url.
        if url = ''https://d37ci6vzurychx.cloudfront.net/trip-data/yellow_tripdata_2024-01.parquet''
        then Inr [sample_row 12.5 2 1, sample_row 0 1 1, sample_row 30 8 2]
        else if url = ''https://d37ci6vzurychx.cloudfront.net/trip-data/yellow_tripdata_2024-03.parquet''
        then Inr [sample_row 7 1 3]
        else Inl IOException)\<rparr>"


text \<open>The \<open>trip_id\<close> column holds 1, 2, 3, ... in the order of the rows.\<close>

definition numbered_from_one :: "trip list \<Rightarrow> bool" where
  "numbered_from_one ts \<longleftrightarrow>
     map trip_id ts = map (\<lambda>k. Some (int k)) [1..<1 + length ts]"

text \<open>
  A world where the January file can be read but none of its rows passes the conditions
  (its only row has a fare of 0), and the February file has two rows that pass.
\<close>

definition empty_january_world :: world where
  "empty_january_world =
     \<lparr>zone_response = Inr (Inr two_zone_rows),
      parquet_files = (\<lambda>url.
        if url = ''https://d37ci6vzurychx.cloudfront.net/trip-data/yellow_tripdata_2024-01.parquet''
        then Inr [sample_row 0 1 1]
        else if url = ''https://d37ci6vzurychx.cloudfront.net/trip-data/yellow_tripdata_2024-02.parquet''
        then Inr [sample_row 9 1 1, sample_row 11 3 2]
        else Inl IOException)\<rparr>"

section \<open>Verification\<close>

subsection \<open>Zone loading\<close>

lemma insert_zones_fresh:
  "zones db = Some ys \<Longrightarrow> distinct (map location_id (ys @ zs)) \<Longrightarrow>
   insert_zones zs db = Inr (db\<lparr>zones := Some (ys @ zs)\<rparr>)"
proof (induction zs arbitrary: db ys)
  case Nil
  then show ?case by simp
next
  case (Cons z zs)
  have fresh: "location_id z \<notin> set (map location_id ys)"
    using Cons.prems(2) by auto
  have step: "insert_zone z db = Inr (db\<lparr>zones := Some (ys @ [z])\<rparr>)"
    using Cons.prems(1) fresh by (simp add: insert_zone_def)
  have "insert_zones zs (db\<lparr>zones := Some (ys @ [z])\<rparr>) =
        Inr (db\<lparr>zones := Some (ys @ [z])\<rparr>\<lparr>zones := Some ((ys @ [z]) @ zs)\<rparr>)"
    using Cons.prems(2) by (intro Cons.IH) simp_all
  then show ?case using step by simp
qed

lemma zones_data_keys: "distinct (map location_id zones_data)"
  by (simp add: zones_data_def mk_zone_def)

lemma length_zones_data: "length zones_data = 38"
  by (simp add: zones_data_def)

lemma create_minimal_zones_fresh:
  "zones db = None \<Longrightarrow> create_minimal_zones db = Inr (db\<lparr>zones := Some zones_data\<rparr>)"
  using insert_zones_fresh [of "db\<lparr>zones := Some []\<rparr>" "[]" zones_data] zones_data_keys
  by (simp add: create_minimal_zones_def create_table_zones_def)

lemma load_zones_fallback:
  "\<not> download_zone_lookup w \<or> (\<exists>e. read_csv_auto w = Inl e) \<Longrightarrow>
   load_zones w db = Inr (db\<lparr>zones := Some zones_data\<rparr>)"
  by (auto simp: load_zones_def Let_def create_zones_as_select_def create_minimal_zones_fresh)

lemma load_zones_csv:
  "zone_response w = Inr (Inr rows) \<Longrightarrow>
   load_zones w db = Inr (db\<lparr>zones := Some (map rename_zone rows)\<rparr>)"
  by (simp add: load_zones_def create_zones_as_select_def download_zone_lookup_def
      read_csv_auto_def count_zones_def)

lemma load_zones_total:
  "\<exists>zs. load_zones w db = Inr (db\<lparr>zones := Some zs\<rparr>)"
proof (cases "zone_response w")
  case (Inl e)
  then have "\<not> download_zone_lookup w" by (simp add: download_zone_lookup_def)
  then show ?thesis using load_zones_fallback by blast
next
  case (Inr f)
  show ?thesis
  proof (cases f)
    case (Inl e)
    then have "read_csv_auto w = Inl e" using Inr by (simp add: read_csv_auto_def)
    then show ?thesis using load_zones_fallback by blast
  next
    case (Inr rows)
    then show ?thesis using \<open>zone_response w = Inr f\<close> load_zones_csv by blast
  qed
qed

subsection \<open>The loading statements\<close>

lemma erase_select_row: "select_row tid r\<lparr>trip_id := None\<rparr> = select_row None r"
  by (simp add: select_row_def)

lemma map_enumerate_snd: "map (\<lambda>(k, r). f r) (enumerate n xs) = map f xs"
  by (induction xs arbitrary: n) simp_all

lemma erase_select_trips:
  "map (\<lambda>t. t\<lparr>trip_id := None\<rparr>) (select_trips off cap rows) =
   map (select_row None) (take cap (filter keeps rows))"
proof -
  have "map (\<lambda>t. t\<lparr>trip_id := None\<rparr>) (select_trips off cap rows) =
        take cap (map (\<lambda>(k, r). select_row None r) (enumerate 1 (filter keeps rows)))"
    by (simp add: select_trips_def take_map split_def erase_select_row)
  then show ?thesis by (simp add: map_enumerate_snd take_map)
qed

lemma length_select_trips: "length (select_trips off cap rows) \<le> cap"
  by (simp add: select_trips_def)

lemma map_enumerate_fst: "map (\<lambda>(k, r). g k) (enumerate n xs) = map g [n..<n + length xs]"
proof -
  have "map (\<lambda>(k, r). g k) (enumerate n xs) = map (g \<circ> fst) (enumerate n xs)"
    by (simp add: split_def comp_def)
  also have "\<dots> = map g (map fst (enumerate n xs))"
    by (simp only: map_map)
  also have "map fst (enumerate n xs) = [n..<n + length xs]"
    by (rule map_fst_enumerate)
  finally show ?thesis .
qed

lemma trip_ids_select_trips:
  "map trip_id (select_trips off cap rows) =
   map (\<lambda>k. sql_add (Some (int k)) off) [1..<1 + length (select_trips off cap rows)]"
proof -
  let ?fs = "filter keeps rows"
  have len: "length (select_trips off cap rows) = min cap (length ?fs)"
    by (simp add: select_trips_def min_def)
  have "map trip_id (select_trips off cap rows) =
        take cap (map (\<lambda>(k, r). sql_add (Some (int k)) off) (enumerate 1 ?fs))"
    by (simp add: select_trips_def take_map split_def select_row_def)
  also have "\<dots> = take cap (map (\<lambda>k. sql_add (Some (int k)) off) [1..<1 + length ?fs])"
    by (simp only: map_enumerate_fst)
  also have "\<dots> = map (\<lambda>k. sql_add (Some (int k)) off) (take cap [1..<1 + length ?fs])"
    by (simp only: take_map)
  also have "take cap [1..<1 + length ?fs] = [1..<1 + min cap (length ?fs)]"
  proof (cases "cap \<le> length ?fs")
    case True
    then show ?thesis by (simp add: min_def del: upt_Suc)
  next
    case False
    then show ?thesis by (simp add: min_def del: upt_Suc)
  qed
  finally show ?thesis by (simp only: len)
qed

lemma sql_and_True: "sql_and p q = Some True \<longleftrightarrow> p = Some True \<and> q = Some True"
  by (induction p q rule: sql_and.induct) auto

lemma keeps_iff_quality: "keeps r \<longleftrightarrow> quality r"
  by (auto simp: keeps_def where_clause_def sql_and_True sql_gt_def sql_lt_def sql_le_def
      quality_def holds_def split: option.splits)

lemma quality_select_row: "quality (select_row tid r) = quality r"
  by (simp add: quality_def select_row_def)

lemma quality_select_trips: "t \<in> set (select_trips off cap rows) \<Longrightarrow> quality t"
proof -
  assume "t \<in> set (select_trips off cap rows)"
  then have "t \<in> set (map (\<lambda>(k, r). select_row (sql_add (Some (int k)) off) r)
                        (enumerate 1 (filter keeps rows)))"
    unfolding select_trips_def by (rule in_set_takeD)
  then obtain k r where kr: "(k, r) \<in> set (enumerate 1 (filter keeps rows))"
    and t: "t = select_row (sql_add (Some (int k)) off) r"
    by auto
  have "r \<in> set (filter keeps rows)"
    using kr unfolding enumerate_eq_zip by (rule set_zip_rightD)
  then have "keeps r" by simp
  then show ?thesis using t by (simp add: quality_select_row keeps_iff_quality)
qed

lemma insert_into_trips_cases:
  assumes "trips db = Some ts"
  shows "insert_into_trips w url db =
           (case parquet_files w url of
              Inl e \<Rightarrow> Inl e
            | Inr rows \<Rightarrow>
                Inr (db\<lparr>trips := Some (ts @ select_trips (sql_max (map trip_id ts)) 50000 rows)\<rparr>))"
  using assms by (simp add: insert_into_trips_def)

lemma load_additional_frame:
  "zones (load_additional w urls db) = zones db \<and>
   connected (load_additional w urls db) = connected db"
proof (induction urls arbitrary: db)
  case Nil
  show ?case by simp
next
  case (Cons url urls)
  show ?case
  proof (cases "insert_into_trips w url db")
    case (Inl e)
    then show ?thesis using Cons.IH [of db] by simp
  next
    case (Inr db')
    then have "zones db' = zones db \<and> connected db' = connected db"
      by (auto simp: insert_into_trips_def split: option.splits sum.splits)
    then show ?thesis using Inr Cons.IH [of db'] by simp
  qed
qed

lemma load_additional_rows:
  assumes "trips db = Some ts"
  shows "\<exists>ts'. trips (load_additional w urls db) = Some ts' \<and>
           erase_ids ts' = erase_ids ts @ concat (map (kept_rows w 50000) urls) \<and>
           ((\<forall>t \<in> set ts. quality t) \<longrightarrow> (\<forall>t \<in> set ts'. quality t))"
  using assms
proof (induction urls arbitrary: db ts)
  case Nil
  then show ?case by simp
next
  case (Cons url urls)
  show ?case
  proof (cases "parquet_files w url")
    case (Inl e)
    then have skip: "load_additional w (url # urls) db = load_additional w urls db"
      using Cons.prems by (simp add: insert_into_trips_cases)
    have "kept_rows w 50000 url = []" using Inl by (simp add: kept_rows_def)
    then show ?thesis using Cons.IH [OF Cons.prems] skip by simp
  next
    case (Inr rows)
    let ?new = "select_trips (sql_max (map trip_id ts)) 50000 rows"
    let ?db' = "db\<lparr>trips := Some (ts @ ?new)\<rparr>"
    have step: "load_additional w (url # urls) db = load_additional w urls ?db'"
      using Cons.prems Inr by (simp add: insert_into_trips_cases)
    have kept: "kept_rows w 50000 url = erase_ids ?new"
      using Inr by (simp add: kept_rows_def erase_ids_def erase_select_trips)
    have "trips ?db' = Some (ts @ ?new)" by simp
    from Cons.IH [OF this] obtain ts' where
      ts': "trips (load_additional w urls ?db') = Some ts'"
        "erase_ids ts' = erase_ids (ts @ ?new) @ concat (map (kept_rows w 50000) urls)"
        "(\<forall>t \<in> set (ts @ ?new). quality t) \<longrightarrow> (\<forall>t \<in> set ts'. quality t)"
      by blast
    have "(\<forall>t \<in> set ts. quality t) \<longrightarrow> (\<forall>t \<in> set ts'. quality t)"
      using ts'(3) quality_select_trips by auto
    moreover have "erase_ids ts' = erase_ids ts @ concat (map (kept_rows w 50000) (url # urls))"
      using ts'(2) kept by (simp add: erase_ids_def)
    ultimately show ?thesis using ts'(1) step by simp
  qed
qed

subsection \<open>The whole run\<close>

lemma load_additional_record:
  assumes "zones db = Some zs" and "connected db"
  shows "load_additional w urls db =
         \<lparr>zones = Some zs, trips = trips (load_additional w urls db), connected = True\<rparr>"
  using load_additional_frame [of w urls db] assms
  by (cases "load_additional w urls db") simp

lemma load_additional_Some:
  "trips db = Some ts \<Longrightarrow> \<exists>ts'. trips (load_additional w urls db) = Some ts'"
  using load_additional_rows by blast

lemma setup_database_outcome:
  "\<exists>zs. load_zones w (db\<lparr>connected := True\<rparr>) = Inr (db\<lparr>connected := True, zones := Some zs\<rparr>) \<and>
     setup_database w db n =
       (case make_urls n of
          [] \<Rightarrow> Inr (False, \<lparr>zones = Some zs, trips = None, connected = False\<rparr>)
        | u # us \<Rightarrow>
            (case parquet_files w u of
               Inl e \<Rightarrow> Inr (False, \<lparr>zones = Some zs, trips = None, connected = False\<rparr>)
             | Inr rows \<Rightarrow>
                 Inr (True,
                   \<lparr>zones = Some zs,
                    trips = trips (load_additional w us
                      \<lparr>zones = Some zs, trips = Some (select_trips (Some 0) 100000 rows),
                       connected = True\<rparr>),
                    connected = False\<rparr>)))"
proof -
  obtain zs where lz:
    "load_zones w (db\<lparr>connected := True\<rparr>) = Inr (db\<lparr>connected := True, zones := Some zs\<rparr>)"
    using load_zones_total [of w "db\<lparr>connected := True\<rparr>"] by auto
  let ?con2 = "\<lparr>zones = Some zs, trips = None, connected = True\<rparr>"
  have con2: "db\<lparr>connected := True, zones := Some zs, trips := None\<rparr> = ?con2"
    by (cases db) simp
  have sd: "setup_database w db n =
      (case try_load_trips w (make_urls n) ?con2 of
         (Inl e, con3) \<Rightarrow> Inr (False, con3\<lparr>connected := False\<rparr>)
       | (Inr counts, con3) \<Rightarrow> Inr (True, con3\<lparr>connected := False\<rparr>))"
  proof -
    have "setup_database w db n =
      (case try_load_trips w (make_urls n) (db\<lparr>connected := True, zones := Some zs, trips := None\<rparr>) of
         (Inl e, con3) \<Rightarrow> Inr (False, con3\<lparr>connected := False\<rparr>)
       | (Inr counts, con3) \<Rightarrow> Inr (True, con3\<lparr>connected := False\<rparr>))"
      using lz by (simp add: setup_database_def Let_def)
    then show ?thesis by (simp only: con2)
  qed
  show ?thesis
  proof (cases "make_urls n")
    case Nil
    then show ?thesis using lz sd by (simp add: try_load_trips_def)
  next
    case (Cons u us)
    show ?thesis
    proof (cases "parquet_files w u")
      case (Inl e)
      then show ?thesis using lz sd Cons
        by (simp add: try_load_trips_def create_trips_as_select_def)
    next
      case (Inr rows)
      let ?db1 = "\<lparr>zones = Some zs, trips = Some (select_trips (Some 0) 100000 rows),
                   connected = True\<rparr>"
      let ?db2 = "load_additional w us ?db1"
      have c: "create_trips_as_select w u ?con2 = Inr ?db1"
        using Inr by (simp add: create_trips_as_select_def)
      obtain ts where ts: "trips ?db2 = Some ts"
        using load_additional_Some [of ?db1 _ w us] by auto
      have rec: "?db2 = \<lparr>zones = Some zs, trips = Some ts, connected = True\<rparr>"
        using load_additional_record [of ?db1 zs w us] ts by simp
      have "try_load_trips w (u # us) ?con2 = (Inr (length ts, length zs), ?db2)"
        using c rec by (simp add: try_load_trips_def Let_def report_def)
      then show ?thesis using lz sd Cons Inr rec ts by simp
    qed
  qed
qed

lemma setup_database_cases:
  obtains
    (no_url) zs where
      "load_zones w (db\<lparr>connected := True\<rparr>) = Inr (db\<lparr>connected := True, zones := Some zs\<rparr>)"
      "make_urls n = []"
      "setup_database w db n = Inr (False, \<lparr>zones = Some zs, trips = None, connected = False\<rparr>)"
  | (first_failed) zs u us e where
      "load_zones w (db\<lparr>connected := True\<rparr>) = Inr (db\<lparr>connected := True, zones := Some zs\<rparr>)"
      "make_urls n = u # us" "parquet_files w u = Inl e"
      "setup_database w db n = Inr (False, \<lparr>zones = Some zs, trips = None, connected = False\<rparr>)"
  | (loaded) zs u us rows ts where
      "load_zones w (db\<lparr>connected := True\<rparr>) = Inr (db\<lparr>connected := True, zones := Some zs\<rparr>)"
      "make_urls n = u # us" "parquet_files w u = Inr rows"
      "trips (load_additional w us
         \<lparr>zones = Some zs, trips = Some (select_trips (Some 0) 100000 rows), connected = True\<rparr>)
       = Some ts"
      "setup_database w db n = Inr (True, \<lparr>zones = Some zs, trips = Some ts, connected = False\<rparr>)"
proof -
  obtain zs where lz:
    "load_zones w (db\<lparr>connected := True\<rparr>) = Inr (db\<lparr>connected := True, zones := Some zs\<rparr>)"
    and sd: "setup_database w db n =
       (case make_urls n of
          [] \<Rightarrow> Inr (False, \<lparr>zones = Some zs, trips = None, connected = False\<rparr>)
        | u # us \<Rightarrow>
            (case parquet_files w u of
               Inl e \<Rightarrow> Inr (False, \<lparr>zones = Some zs, trips = None, connected = False\<rparr>)
             | Inr rows \<Rightarrow>
                 Inr (True,
                   \<lparr>zones = Some zs,
                    trips = trips (load_additional w us
                      \<lparr>zones = Some zs, trips = Some (select_trips (Some 0) 100000 rows),
                       connected = True\<rparr>),
                    connected = False\<rparr>)))"
    using setup_database_outcome [of w db n] by blast
  show thesis
  proof (cases "make_urls n")
    case Nil
    then show thesis using lz sd no_url by simp
  next
    case (Cons u us)
    show thesis
    proof (cases "parquet_files w u")
      case (Inl e)
      then show thesis using lz sd Cons first_failed by simp
    next
      case (Inr rows)
      obtain ts where
        "trips (load_additional w us
           \<lparr>zones = Some zs, trips = Some (select_trips (Some 0) 100000 rows), connected = True\<rparr>)
         = Some ts"
        using load_additional_Some
          [of "\<lparr>zones = Some zs, trips = Some (select_trips (Some 0) 100000 rows), connected = True\<rparr>"
              _ w us]
        by auto
      then show thesis using lz sd Cons Inr loaded by simp
    qed
  qed
qed

lemma load_zones_result:
  assumes "load_zones w db = Inr (db\<lparr>zones := Some zs\<rparr>)"
      and "load_zones w db = Inr (db\<lparr>zones := Some zs'\<rparr>)"
  shows "zs = zs'"
proof -
  have "zones (db\<lparr>zones := Some zs\<rparr>) = zones (db\<lparr>zones := Some zs'\<rparr>)"
    using assms by simp
  then show ?thesis by simp
qed

subsection \<open>Month lists and URLs\<close>

lemma map_Suc_upto: "map (\<lambda>i. i + 1) [a..b] = [a + 1..b + 1]"
proof (induction a b rule: upto.induct)
  case (1 i j)
  show ?case
  proof (cases "i \<le> j")
    case True
    then show ?thesis using 1 by (simp add: upto_rec1 [of i j] upto_rec1 [of "i + 1" "j + 1"])
  next
    case False
    then show ?thesis by simp
  qed
qed

lemma filter_upto_le: "filter (\<lambda>m. m \<le> c) [a..b] = [a..min b c]"
proof (cases "b \<le> c")
  case True
  then have "\<forall>m \<in> set [a..b]. m \<le> c" by auto
  then have "filter (\<lambda>m. m \<le> c) [a..b] = [a..b]" by (simp only: filter_True)
  then show ?thesis using True by (simp add: min_def)
next
  case False
  show ?thesis
  proof (cases "a \<le> c")
    case True
    then have split: "[a..b] = [a..c] @ [c + 1..b]"
      using False upto_split2 [of a c b] by simp
    have "filter (\<lambda>m. m \<le> c) [a..c] = [a..c]" by (rule filter_True) auto
    moreover have "filter (\<lambda>m. m \<le> c) [c + 1..b] = []" by (rule filter_False) auto
    ultimately show ?thesis using False split by (simp add: min_def)
  next
    case False
    then have "filter (\<lambda>m. m \<le> c) [a..b] = []" by (intro filter_False) auto
    then show ?thesis using False \<open>\<not> b \<le> c\<close> by (simp add: min_def)
  qed
qed

lemma months_eq: "months n = map (\<lambda>month. (2024, month)) [1..min n 12]"
  using map_Suc_upto [of 0 "n - 1"] filter_upto_le [of 12 1 n]
  by (simp add: months_def range_def current_year_def)

lemma length_make_urls: "length (make_urls n) = nat (min n 12)"
  by (simp add: make_urls_def months_eq)

lemma make_urls_nonpositive: "n \<le> 0 \<Longrightarrow> make_urls n = []"
  by (simp add: make_urls_def months_eq)

lemma make_urls_capped: "12 \<le> n \<Longrightarrow> make_urls n = make_urls 12"
  by (simp add: make_urls_def months_eq min_def)

subsection \<open>Evaluated runs, row counts and the prompt\<close>


lemma make_urls_3:
  "make_urls 3 =
    [''https://d37ci6vzurychx.cloudfront.net/trip-data/yellow_tripdata_2024-01.parquet'',
     ''https://d37ci6vzurychx.cloudfront.net/trip-data/yellow_tripdata_2024-02.parquet'',
     ''https://d37ci6vzurychx.cloudfront.net/trip-data/yellow_tripdata_2024-03.parquet'']"
  by (simp add: make_urls_def months_eq upto.simps make_url_def str_def format_02d_def
      digits.simps digit_char_def)

lemma keeps_sample_row:
  "keeps (sample_row fare miles pc) \<longleftrightarrow>
     0 < fare \<and> fare < 500 \<and> 0 < miles \<and> miles < 100 \<and> 0 < pc \<and> pc \<le> 6"
  by (simp add: keeps_iff_quality quality_def holds_def sample_row_def)


lemma ask_months_range: "ask_months c = Inr k \<Longrightarrow> 1 \<le> k \<and> k \<le> 12"
  by (auto simp: ask_months_def Let_def split: console.splits if_splits option.splits)

lemma sample_run_3:
  "setup_database sample_world empty_database 3 =
     Inr (True,
       \<lparr>zones = Some (map rename_zone two_zone_rows),
        trips = Some [select_row (Some 1) (sample_row 12.5 2 1),
                      select_row (Some 2) (sample_row 30 8 2),
                      select_row (Some 3) (sample_row 7 1 3)],
        connected = False\<rparr>)"
  by (simp add: setup_database_def load_zones_def download_zone_lookup_def
      create_zones_as_select_def read_csv_auto_def count_zones_def sample_world_def
      empty_database_def make_urls_3 try_load_trips_def create_trips_as_select_def
      insert_into_trips_def select_trips_def keeps_sample_row sql_add_def report_def Let_def
      select_row_def)



lemma length_kept_rows: "length (kept_rows w cap url) \<le> (if isl (parquet_files w url) then 0 else cap)"
  by (simp add: kept_rows_def split: sum.splits)

lemma length_concat_kept_rows:
  "length (concat (map (kept_rows w cap) urls)) \<le>
   cap * length (filter (\<lambda>url. \<not> isl (parquet_files w url)) urls)"
proof (induction urls)
  case Nil
  show ?case by simp
next
  case (Cons url urls)
  show ?case using Cons.IH length_kept_rows [of w cap url] by (simp split: if_splits)
qed

lemma length_erase_ids: "length (erase_ids ts) = length ts"
  by (simp add: erase_ids_def)

lemma loaded_rows:
  assumes "trips (load_additional w us
             \<lparr>zones = Some zs, trips = Some (select_trips (Some 0) 100000 rows), connected = True\<rparr>)
           = Some ts"
  shows "erase_ids ts =
           map (select_row None) (take 100000 (filter keeps rows)) @
           concat (map (kept_rows w 50000) us)"
proof -
  let ?db1 = "\<lparr>zones = Some zs, trips = Some (select_trips (Some 0) 100000 rows),
               connected = True\<rparr>"
  have "trips ?db1 = Some (select_trips (Some 0) 100000 rows)" by simp
  from load_additional_rows [OF this, of w us] assms
  have "erase_ids ts = erase_ids (select_trips (Some 0) 100000 rows) @
          concat (map (kept_rows w 50000) us)"
    by auto
  then show ?thesis by (simp add: erase_ids_def erase_select_trips)
qed

lemma make_urls_12:
  "make_urls 12 =
    [''https://d37ci6vzurychx.cloudfront.net/trip-data/yellow_tripdata_2024-01.parquet'',
     ''https://d37ci6vzurychx.cloudfront.net/trip-data/yellow_tripdata_2024-02.parquet'',
     ''https://d37ci6vzurychx.cloudfront.net/trip-data/yellow_tripdata_2024-03.parquet'',
     ''https://d37ci6vzurychx.cloudfront.net/trip-data/yellow_tripdata_2024-04.parquet'',
     ''https://d37ci6vzurychx.cloudfront.net/trip-data/yellow_tripdata_2024-05.parquet'',
     ''https://d37ci6vzurychx.cloudfront.net/trip-data/yellow_tripdata_2024-06.parquet'',
     ''https://d37ci6vzurychx.cloudfront.net/trip-data/yellow_tripdata_2024-07.parquet'',
     ''https://d37ci6vzurychx.cloudfront.net/trip-data/yellow_tripdata_2024-08.parquet'',
     ''https://d37ci6vzurychx.cloudfront.net/trip-data/yellow_tripdata_2024-09.parquet'',
     ''https://d37ci6vzurychx.cloudfront.net/trip-data/yellow_tripdata_2024-10.parquet'',
     ''https://d37ci6vzurychx.cloudfront.net/trip-data/yellow_tripdata_2024-11.parquet'',
     ''https://d37ci6vzurychx.cloudfront.net/trip-data/yellow_tripdata_2024-12.parquet'']"
  by (simp add: make_urls_def months_eq upto.simps make_url_def str_def format_02d_def
      digits.simps digit_char_def)

lemma distinct_make_urls_12: "distinct (make_urls 12)"
  unfolding make_urls_12 by simp

lemma make_urls_prefix:
  assumes "1 \<le> n" and "n \<le> 12"
  shows "make_urls n = take (nat n) (make_urls 12)"
proof -
  have "[1..12] = [1..n] @ [n + 1..12]"
    using assms by (intro upto_split2) simp_all
  then have "make_urls 12 = make_urls n @ map make_url (map (\<lambda>month. (2024, month)) [n + 1..12])"
    using assms by (simp add: make_urls_def months_eq min_def)
  moreover have "length (make_urls n) = nat n"
    using assms by (simp add: length_make_urls min_def)
  ultimately show ?thesis by simp
qed



subsection \<open>Numbering of the rows\<close>

lemma sql_max_snoc:
  "sql_max (xs @ [Some v]) = (case sql_max xs of None \<Rightarrow> Some v | Some m \<Rightarrow> Some (max m v))"
proof (induction xs)
  case Nil
  show ?case by simp
next
  case (Cons x xs)
  show ?case
  proof (cases x)
    case None
    then show ?thesis using Cons.IH by simp
  next
    case (Some a)
    then show ?thesis using Cons.IH by (simp split: option.splits)
  qed
qed

lemma sql_max_numbered:
  "sql_max (map (\<lambda>k. Some (int k)) [1..<1 + n]) = (if n = 0 then None else Some (int n))"
proof (induction n)
  case 0
  show ?case by simp
next
  case (Suc n)
  have "[1..<1 + Suc n] = [1..<1 + n] @ [Suc n]" by simp
  then have "sql_max (map (\<lambda>k. Some (int k)) [1..<1 + Suc n]) =
        sql_max (map (\<lambda>k. Some (int k)) [1..<1 + n] @ [Some (int (Suc n))])"
    by (simp del: upt_Suc)
  also have "\<dots> = (case sql_max (map (\<lambda>k. Some (int k)) [1..<1 + n]) of
                      None \<Rightarrow> Some (int (Suc n)) | Some m \<Rightarrow> Some (max m (int (Suc n))))"
    by (rule sql_max_snoc)
  also have "\<dots> = Some (int (Suc n))"
    unfolding Suc.IH by simp
  finally show ?case by simp
qed

lemma upt_shift: "[1..<1 + (n + m)] = [1..<1 + n] @ map (\<lambda>k. k + n) [1..<1 + m]"
  by (induction m) simp_all

lemma numbered_first: "numbered_from_one (select_trips (Some 0) cap rows)"
  using trip_ids_select_trips [of "Some 0" cap rows]
  by (simp add: numbered_from_one_def sql_add_def)

lemma numbered_append:
  assumes "numbered_from_one ts" and "ts \<noteq> []"
  shows "numbered_from_one (ts @ select_trips (sql_max (map trip_id ts)) cap rows)"
proof -
  let ?n = "length ts"
  have mx: "sql_max (map trip_id ts) = Some (int ?n)"
    using assms sql_max_numbered [of ?n] by (simp add: numbered_from_one_def)
  let ?new = "select_trips (Some (int ?n)) cap rows"
  have "map trip_id ?new = map (\<lambda>k. sql_add (Some (int k)) (Some (int ?n))) [1..<1 + length ?new]"
    by (rule trip_ids_select_trips)
  also have "\<dots> = map (\<lambda>k. Some (int k)) (map (\<lambda>k. k + ?n) [1..<1 + length ?new])"
    by (simp add: sql_add_def comp_def del: upt_Suc)
  finally have new: "map trip_id ?new =
      map (\<lambda>k. Some (int k)) (map (\<lambda>k. k + ?n) [1..<1 + length ?new])" .
  have "map trip_id (ts @ ?new) =
        map (\<lambda>k. Some (int k)) ([1..<1 + ?n] @ map (\<lambda>k. k + ?n) [1..<1 + length ?new])"
    using assms(1) new by (simp only: map_append numbered_from_one_def)
  also have "\<dots> = map (\<lambda>k. Some (int k)) [1..<1 + (?n + length ?new)]"
    by (simp only: upt_shift)
  finally show ?thesis by (simp only: mx numbered_from_one_def length_append)
qed

lemma load_additional_numbered:
  assumes "trips db = Some ts" and "numbered_from_one ts" and "ts \<noteq> []"
  shows "\<exists>ts'. trips (load_additional w urls db) = Some ts' \<and> numbered_from_one ts'"
  using assms
proof (induction urls arbitrary: db ts)
  case Nil
  then show ?case by simp
next
  case (Cons url urls)
  show ?case
  proof (cases "parquet_files w url")
    case (Inl e)
    then have "load_additional w (url # urls) db = load_additional w urls db"
      using Cons.prems(1) by (simp add: insert_into_trips_cases)
    then show ?thesis using Cons.IH [OF Cons.prems] by simp
  next
    case (Inr rows)
    let ?ts = "ts @ select_trips (sql_max (map trip_id ts)) 50000 rows"
    let ?db = "db\<lparr>trips := Some ?ts\<rparr>"
    have step: "load_additional w (url # urls) db = load_additional w urls ?db"
      using Cons.prems(1) Inr by (simp add: insert_into_trips_cases)
    have "trips ?db = Some ?ts" by simp
    moreover have "numbered_from_one ?ts"
      using Cons.prems(2,3) by (rule numbered_append)
    moreover have "?ts \<noteq> []" using Cons.prems(3) by simp
    ultimately show ?thesis using Cons.IH [of ?db ?ts] step by simp
  qed
qed

lemma trip_ids_numbered:
  assumes "setup_database w db n = Inr (ok, db')"
      and "trips db' = Some ts"
      and "make_urls n = u # us"
      and "parquet_files w u = Inr rows"
      and "filter keeps rows \<noteq> []"
  shows "map trip_id ts = map (\<lambda>k. Some (int k)) [1..<1 + length ts]"
proof (cases rule: setup_database_cases [of w db n])
  case (no_url zs)
  then show ?thesis using assms by simp
next
  case (first_failed zs u' us' e)
  then show ?thesis using assms by simp
next
  case (loaded zs u' us' rows' ts')
  have same: "us' = us" "rows' = rows" "ts' = ts"
    using loaded(2,3,5) assms by simp_all
  let ?first = "select_trips (Some 0) 100000 rows"
  let ?db1 = "\<lparr>zones = Some zs, trips = Some ?first, connected = True\<rparr>"
  have len: "length ?first = min 100000 (length (filter keeps rows))"
    by (simp add: select_trips_def min_def)
  have pos: "0 < length (filter keeps rows)" using assms(5) by simp
  have "0 < length ?first" unfolding len using pos by simp
  then have nonempty: "?first \<noteq> []" by auto
  have tab: "trips ?db1 = Some ?first" by simp
  obtain ts'' where "trips (load_additional w us ?db1) = Some ts''"
    and "numbered_from_one ts''"
    using load_additional_numbered [OF tab numbered_first nonempty, of w us] by blast
  then show ?thesis using loaded(4) same by (simp add: numbered_from_one_def)
qed

lemma make_urls_2:
  "make_urls 2 =
    [''https://d37ci6vzurychx.cloudfront.net/trip-data/yellow_tripdata_2024-01.parquet'',
     ''https://d37ci6vzurychx.cloudfront.net/trip-data/yellow_tripdata_2024-02.parquet'']"
  by (simp add: make_urls_def months_eq upto.simps make_url_def str_def format_02d_def
      digits.simps digit_char_def)

section \<open>The claims\<close>

text \<open>
  Claim C6. Whenever the zone download fails (\<^verbatim>\<open>download_zone_lookup\<close> returns False) or
  loading the downloaded file raises, the run ends with the \<^verbatim>\<open>zones\<close> table holding
  exactly the rows of \<open>zones_data\<close>, 38 of them, whatever the database held before, the
  month count and the outcome of the trip files.
\<close>

theorem fallback_zones:
  assumes "\<not> download_zone_lookup w \<or> (\<exists>e. read_csv_auto w = Inl e)"
  shows "\<exists>ok trips'. setup_database w db n =
            Inr (ok, \<lparr>zones = Some zones_data, trips = trips', connected = False\<rparr>) \<and>
          length zones_data = 38"
proof -
  obtain zs where lz:
    "load_zones w (db\<lparr>connected := True\<rparr>) = Inr (db\<lparr>connected := True, zones := Some zs\<rparr>)"
    and sd: "setup_database w db n =
       (case make_urls n of
          [] \<Rightarrow> Inr (False, \<lparr>zones = Some zs, trips = None, connected = False\<rparr>)
        | u # us \<Rightarrow>
            (case parquet_files w u of
               Inl e \<Rightarrow> Inr (False, \<lparr>zones = Some zs, trips = None, connected = False\<rparr>)
             | Inr rows \<Rightarrow>
                 Inr (True,
                   \<lparr>zones = Some zs,
                    trips = trips (load_additional w us
                      \<lparr>zones = Some zs, trips = Some (select_trips (Some 0) 100000 rows),
                       connected = True\<rparr>),
                    connected = False\<rparr>)))"
    using setup_database_outcome [of w db n] by blast
  have "load_zones w (db\<lparr>connected := True\<rparr>) = Inr (db\<lparr>connected := True, zones := Some zones_data\<rparr>)"
    using load_zones_fallback [OF assms] by simp
  then have "zones (db\<lparr>connected := True, zones := Some zs\<rparr>) =
             zones (db\<lparr>connected := True, zones := Some zones_data\<rparr>)"
    using lz by simp
  then have "zs = zones_data" by simp
  then show ?thesis using sd by (auto simp: length_zones_data split: list.splits sum.splits)
qed

text \<open>A run without network: the request fails, and so does every trip file.\<close>

theorem fallback_zones_witness:
  "\<not> download_zone_lookup offline_world \<and>
   (\<exists>ok trips'. setup_database offline_world empty_database 3 =
            Inr (ok, \<lparr>zones = Some zones_data, trips = trips', connected = False\<rparr>) \<and>
          length zones_data = 38)"
proof -
  have h: "\<not> download_zone_lookup offline_world"
    by (simp add: download_zone_lookup_def offline_world_def)
  then have "\<not> download_zone_lookup offline_world \<or> (\<exists>e. read_csv_auto offline_world = Inl e)"
    by simp
  from fallback_zones [OF this, of empty_database 3] h show ?thesis by simp
qed

text \<open>
  Claim C7. When the zone download succeeds and the file holds K well-formed rows, the run
  ends with a \<^verbatim>\<open>zones\<close> table of exactly K rows, in file order, whose columns are the
  source columns renamed: \<open>LocationID\<close> to \<open>location_id\<close>, \<open>Zone\<close> to \<open>zone_name\<close>,
  \<open>Borough\<close> to \<open>borough\<close>, and \<open>service_zone\<close> unchanged.
\<close>

theorem downloaded_zones:
  assumes "zone_response w = Inr (Inr rows)"
  shows "\<exists>ok trips' zs. setup_database w db n =
            Inr (ok, \<lparr>zones = Some zs, trips = trips', connected = False\<rparr>) \<and>
          length zs = length rows \<and>
          map location_id zs = map LocationID rows \<and>
          map zone_name zs = map Zone rows \<and>
          map borough zs = map Borough rows \<and>
          map service_zone zs = map csv_service_zone rows"
proof -
  let ?zs = "map rename_zone rows"
  have cols: "length ?zs = length rows \<and>
          map location_id ?zs = map LocationID rows \<and>
          map zone_name ?zs = map Zone rows \<and>
          map borough ?zs = map Borough rows \<and>
          map service_zone ?zs = map csv_service_zone rows"
    by (simp add: rename_zone_def comp_def)
  have lz: "load_zones w (db\<lparr>connected := True\<rparr>) = Inr (db\<lparr>connected := True, zones := Some ?zs\<rparr>)"
    using load_zones_csv [OF assms] by simp
  show ?thesis
  proof (cases rule: setup_database_cases [of w db n])
    case (no_url zs)
    then have "zs = ?zs" using lz load_zones_result [of w "db\<lparr>connected := True\<rparr>"] by simp
    then show ?thesis using no_url(3) cols by blast
  next
    case (first_failed zs u us e)
    then have "zs = ?zs" using lz load_zones_result [of w "db\<lparr>connected := True\<rparr>"] by simp
    then show ?thesis using first_failed(4) cols by blast
  next
    case (loaded zs u us rows' ts)
    then have "zs = ?zs" using lz load_zones_result [of w "db\<lparr>connected := True\<rparr>"] by simp
    then show ?thesis using loaded(5) cols by blast
  qed
qed

text \<open>A lookup file of two rows.\<close>

theorem downloaded_zones_witness:
  "zone_response sample_world = Inr (Inr two_zone_rows) \<and>
   (\<exists>ok trips' zs. setup_database sample_world empty_database 3 =
            Inr (ok, \<lparr>zones = Some zs, trips = trips', connected = False\<rparr>) \<and>
          length zs = 2 \<and>
          map location_id zs = [1, 2] \<and>
          map zone_name zs = [''Newark Airport'', ''Jamaica Bay''] \<and>
          map borough zs = [''EWR'', ''Queens''] \<and>
          map service_zone zs = [''EWR'', ''Boro Zone''])"
proof -
  have h: "zone_response sample_world = Inr (Inr two_zone_rows)"
    by (simp add: sample_world_def)
  show ?thesis using h downloaded_zones [OF h, of empty_database 3]
    by (auto simp: two_zone_rows_def)
qed




text \<open>
  Claim C9. Called with a month count of 0 or less, \<^verbatim>\<open>setup_database\<close> generates no URL,
  \<^verbatim>\<open>urls[0]\<close> raises inside the \<^verbatim>\<open>try\<close>, the run ends without a \<^verbatim>\<open>trips\<close> table and
  returns False. The function bounds the months only from above (a count of 12 or more
  gives the twelve URLs of a count of 12); the lower bound is the prompt's, whose answer
  always lies between 1 and 12.
\<close>

theorem nonpositive_month_count:
  assumes "n \<le> 0"
  shows "make_urls n = [] \<and>
         try_load_trips w (make_urls n) con = (Inl IndexError, con) \<and>
         (\<exists>zs. setup_database w db n =
            Inr (False, \<lparr>zones = Some zs, trips = None, connected = False\<rparr>)) \<and>
         (\<forall>m. 12 \<le> m \<longrightarrow> make_urls m = make_urls 12 \<and> length (make_urls m) = 12) \<and>
         (\<forall>c k. ask_months c = Inr k \<longrightarrow> 1 \<le> k \<and> k \<le> 12)"
proof -
  have urls: "make_urls n = []" using assms by (rule make_urls_nonpositive)
  have "\<exists>zs. setup_database w db n =
            Inr (False, \<lparr>zones = Some zs, trips = None, connected = False\<rparr>)"
    by (cases rule: setup_database_cases [of w db n]) (use urls in auto)
  moreover have "try_load_trips w (make_urls n) con = (Inl IndexError, con)"
    using urls by (simp add: try_load_trips_def)
  moreover have "\<forall>m. 12 \<le> m \<longrightarrow> make_urls m = make_urls 12 \<and> length (make_urls m) = 12"
  proof (intro allI impI conjI)
    fix m :: int
    assume "12 \<le> m"
    then show "make_urls m = make_urls 12" by (rule make_urls_capped)
    show "length (make_urls m) = 12" using \<open>12 \<le> m\<close> by (simp add: length_make_urls min_def)
  qed
  moreover have "\<forall>c k. ask_months c = Inr k \<longrightarrow> 1 \<le> k \<and> k \<le> 12"
    using ask_months_range by blast
  ultimately show ?thesis using urls by blast
qed

text \<open>A direct call with a month count of 0.\<close>

theorem nonpositive_month_count_witness:
  "make_urls 0 = [] \<and>
   try_load_trips sample_world (make_urls 0) empty_database = (Inl IndexError, empty_database) \<and>
   (\<exists>zs. setup_database sample_world empty_database 0 =
      Inr (False, \<lparr>zones = Some zs, trips = None, connected = False\<rparr>)) \<and>
   length (make_urls 15) = 12 \<and>
   ask_months (Line ''0'') = Inr 1"
proof -
  have a: "(0::int) \<le> 0" by simp
  have b: "(12::int) \<le> 15" by simp
  have c: "ask_months (Line ''0'') = Inr 1" by code_simp
  note t = nonpositive_month_count [OF a, of sample_world empty_database empty_database]
  show ?thesis using t b c by blast
qed

text \<open>
  Claim C10. Whatever happens to the trip files, the \<^verbatim>\<open>zones\<close> table of the database file
  at the end of the run is the one the zone-loading step created, also when the run
  returns False; and on both paths the connection is closed when the function returns.
\<close>

theorem zones_kept_and_connection_closed:
  assumes "setup_database w db n = Inr (ok, db')"
  shows "\<not> connected db' \<and>
         (\<exists>db1. load_zones w (db\<lparr>connected := True\<rparr>) = Inr db1 \<and> zones db' = zones db1 \<and>
                zones db1 \<noteq> None)"
  by (cases rule: setup_database_cases [of w db n]) (use assms in auto)

text \<open>A failing run: no network, so the first trip file cannot be read.\<close>

theorem zones_kept_and_connection_closed_witness:
  "setup_database offline_world empty_database 3 =
     Inr (False, \<lparr>zones = Some zones_data, trips = None, connected = False\<rparr>) \<and>
   load_zones offline_world (empty_database\<lparr>connected := True\<rparr>) =
     Inr (empty_database\<lparr>connected := True, zones := Some zones_data\<rparr>) \<and>
   \<not> connected \<lparr>zones = Some zones_data, trips = None, connected = False\<rparr> \<and>
   (\<exists>db1. load_zones offline_world (empty_database\<lparr>connected := True\<rparr>) = Inr db1 \<and>
      zones \<lparr>zones = Some zones_data, trips = None, connected = False\<rparr> = zones db1 \<and>
      zones db1 \<noteq> None)"
proof -
  have off: "\<not> download_zone_lookup offline_world"
    by (simp add: download_zone_lookup_def offline_world_def)
  then have lz: "load_zones offline_world (empty_database\<lparr>connected := True\<rparr>) =
     Inr (empty_database\<lparr>connected := True, zones := Some zones_data\<rparr>)"
    using load_zones_fallback [of offline_world "empty_database\<lparr>connected := True\<rparr>"] by simp
  have run: "setup_database offline_world empty_database 3 =
     Inr (False, \<lparr>zones = Some zones_data, trips = None, connected = False\<rparr>)"
    using lz by (simp add: setup_database_def make_urls_3 try_load_trips_def
        create_trips_as_select_def offline_world_def empty_database_def)
  note kept = zones_kept_and_connection_closed [OF run]
  show ?thesis using run lz kept by blast
qed



text \<open>
  Claim C5. The statement for the first month puts at most 100000 rows into the table and
  each statement for a later month appends at most 50000. So the table a run leaves has at
  most 100000 + 50000 * (K - 1) rows, with K the number of months whose file loaded, hence
  at most 100000 + 50000 * (N - 1) rows for a month count N between 1 and 12.
\<close>

theorem trips_row_caps:
  assumes "setup_database w db n = Inr (ok, db')"
      and "trips db' = Some ts"
  shows "(\<forall>url db0 db1. create_trips_as_select w url db0 = Inr db1 \<longrightarrow>
            (\<exists>ts1. trips db1 = Some ts1 \<and> length ts1 \<le> 100000)) \<and>
         (\<forall>url db0 db1 ts0. trips db0 = Some ts0 \<longrightarrow> insert_into_trips w url db0 = Inr db1 \<longrightarrow>
            (\<exists>new. trips db1 = Some (ts0 @ new) \<and> length new \<le> 50000)) \<and>
         length ts \<le> 100000 +
           50000 * length (filter (\<lambda>url. \<not> isl (parquet_files w url)) (tl (make_urls n))) \<and>
         length ts \<le> 100000 + 50000 * (length (make_urls n) - 1) \<and>
         (1 \<le> n \<and> n \<le> 12 \<longrightarrow> int (length ts) \<le> 100000 + 50000 * (n - 1))"
proof -
  have first: "\<forall>url db0 db1. create_trips_as_select w url db0 = Inr db1 \<longrightarrow>
            (\<exists>ts1. trips db1 = Some ts1 \<and> length ts1 \<le> 100000)"
    by (auto simp: create_trips_as_select_def length_select_trips split: option.splits sum.splits)
  have later: "\<forall>url db0 db1 ts0. trips db0 = Some ts0 \<longrightarrow> insert_into_trips w url db0 = Inr db1 \<longrightarrow>
            (\<exists>new. trips db1 = Some (ts0 @ new) \<and> length new \<le> 50000)"
    by (auto simp: insert_into_trips_def length_select_trips split: option.splits sum.splits)
  have total: "length ts \<le> 100000 +
           50000 * length (filter (\<lambda>url. \<not> isl (parquet_files w url)) (tl (make_urls n)))"
  proof (cases rule: setup_database_cases [of w db n])
    case (no_url zs)
    then show ?thesis using assms by auto
  next
    case (first_failed zs u us e)
    then show ?thesis using assms by auto
  next
    case (loaded zs u us rows ts')
    have "ts' = ts" using loaded(5) assms by auto
    then have "erase_ids ts =
           map (select_row None) (take 100000 (filter keeps rows)) @
           concat (map (kept_rows w 50000) us)"
      using loaded_rows [OF loaded(4)] by simp
    then have "length ts =
           length (take 100000 (filter keeps rows)) +
           length (concat (map (kept_rows w 50000) us))"
      using length_erase_ids [of ts] by (simp del: length_take length_concat)
    moreover have "length (take 100000 (filter keeps rows)) \<le> 100000" by simp
    ultimately have "length ts \<le> 100000 +
           50000 * length (filter (\<lambda>url. \<not> isl (parquet_files w url)) us)"
      using length_concat_kept_rows [of w 50000 us] by linarith
    then show ?thesis using loaded(2) by simp
  qed
  have "length (filter (\<lambda>url. \<not> isl (parquet_files w url)) (tl (make_urls n)))
        \<le> length (make_urls n) - 1"
    using length_filter_le [of _ "tl (make_urls n)"] by simp
  then have bound: "length ts \<le> 100000 + 50000 * (length (make_urls n) - 1)"
    using total by simp
  have "int (length ts) \<le> 100000 + 50000 * (n - 1)" if "1 \<le> n \<and> n \<le> 12"
  proof -
    have "length (make_urls n) = nat n" using that by (simp add: length_make_urls min_def)
    define k where "k = nat (n - 1)"
    have k: "nat n - 1 = k" "n - 1 = int k" using that by (simp_all add: k_def)
    have "length ts \<le> 100000 + 50000 * k"
      using bound \<open>length (make_urls n) = nat n\<close> k(1) by simp
    then have "int (length ts) \<le> 100000 + 50000 * int k" by linarith
    then show ?thesis using k(2) by simp
  qed
  then show ?thesis using first later total bound by blast
qed

text \<open>
  The sample world with three months: January keeps two rows, February fails, March keeps
  one; the March statement appends its row to the two that are there.
\<close>

theorem trips_row_caps_witness:
  "setup_database sample_world empty_database 3 =
     Inr (True,
       \<lparr>zones = Some (map rename_zone two_zone_rows),
        trips = Some [select_row (Some 1) (sample_row 12.5 2 1),
                      select_row (Some 2) (sample_row 30 8 2),
                      select_row (Some 3) (sample_row 7 1 3)],
        connected = False\<rparr>) \<and>
   length [select_row (Some 1) (sample_row 12.5 2 1), select_row (Some 2) (sample_row 30 8 2),
           select_row (Some 3) (sample_row 7 1 3)]
     \<le> 100000 + 50000 * (length (make_urls 3) - 1) \<and>
   int (length [select_row (Some 1) (sample_row 12.5 2 1), select_row (Some 2) (sample_row 30 8 2),
           select_row (Some 3) (sample_row 7 1 3)])
     \<le> 100000 + 50000 * (3 - 1) \<and>
   insert_into_trips sample_world
     ''https://d37ci6vzurychx.cloudfront.net/trip-data/yellow_tripdata_2024-03.parquet''
     \<lparr>zones = None,
      trips = Some [select_row (Some 1) (sample_row 12.5 2 1),
                    select_row (Some 2) (sample_row 30 8 2)],
      connected = True\<rparr> =
     Inr \<lparr>zones = None,
          trips = Some ([select_row (Some 1) (sample_row 12.5 2 1),
                         select_row (Some 2) (sample_row 30 8 2)] @
                        [select_row (Some 3) (sample_row 7 1 3)]),
          connected = True\<rparr> \<and>
   (\<exists>new. Some ([select_row (Some 1) (sample_row 12.5 2 1),
                 select_row (Some 2) (sample_row 30 8 2)] @
                [select_row (Some 3) (sample_row 7 1 3)]) =
           Some ([select_row (Some 1) (sample_row 12.5 2 1),
                  select_row (Some 2) (sample_row 30 8 2)] @ new) \<and>
          length new \<le> 50000)"
proof -
  let ?mar = "''https://d37ci6vzurychx.cloudfront.net/trip-data/yellow_tripdata_2024-03.parquet''"
  let ?two = "[select_row (Some 1) (sample_row 12.5 2 1), select_row (Some 2) (sample_row 30 8 2)]"
  let ?ts = "[select_row (Some 1) (sample_row 12.5 2 1), select_row (Some 2) (sample_row 30 8 2),
              select_row (Some 3) (sample_row 7 1 3)]"
  let ?db = "\<lparr>zones = Some (map rename_zone two_zone_rows), trips = Some ?ts, connected = False\<rparr>"
  let ?before = "\<lparr>zones = None, trips = Some ?two, connected = True\<rparr>"
  let ?after = "\<lparr>zones = None, trips = Some (?two @ [select_row (Some 3) (sample_row 7 1 3)]),
               connected = True\<rparr>"
  have run: "setup_database sample_world empty_database 3 = Inr (True, ?db)"
    by (rule sample_run_3)
  have tab: "trips ?db = Some ?ts" by simp
  have tab0: "trips ?before = Some ?two" by simp
  have ins: "insert_into_trips sample_world ?mar ?before = Inr ?after"
    by (simp add: insert_into_trips_def sample_world_def select_trips_def keeps_sample_row
        sql_add_def select_row_def)
  have n: "(1::int) \<le> 3 \<and> (3::int) \<le> 12" by simp
  note t = trips_row_caps [OF run tab]
  have "\<exists>new. trips ?after = Some (?two @ new) \<and> length new \<le> 50000"
    using t tab0 ins by blast
  then have new: "\<exists>new. Some (?two @ [select_row (Some 3) (sample_row 7 1 3)]) = Some (?two @ new) \<and>
      length new \<le> 50000"
    by simp
  have "length ?ts \<le> 100000 + 50000 * (length (make_urls 3) - 1)" using t by blast
  moreover have "int (length ?ts) \<le> 100000 + 50000 * (3 - 1)" using t n by blast
  ultimately show ?thesis using run ins new by blast
qed

text \<open>
  Claim C4. For a month count N from 1 to 12 the run generates exactly N URLs, pairwise
  distinct, one for each of the months 1 to N of 2024 in order, each named
  \<^verbatim>\<open>yellow_tripdata_2024-MM.parquet\<close> with the month in two digits: they are the first N
  entries of the list of the twelve URLs of 2024.
\<close>

theorem month_urls:
  assumes "1 \<le> N" and "N \<le> 12"
  shows "length (make_urls N) = nat N \<and> distinct (make_urls N) \<and>
         make_urls N = map (\<lambda>month. make_url (2024, month)) [1..N] \<and>
         make_urls N = take (nat N)
           [''https://d37ci6vzurychx.cloudfront.net/trip-data/yellow_tripdata_2024-01.parquet'',
            ''https://d37ci6vzurychx.cloudfront.net/trip-data/yellow_tripdata_2024-02.parquet'',
            ''https://d37ci6vzurychx.cloudfront.net/trip-data/yellow_tripdata_2024-03.parquet'',
            ''https://d37ci6vzurychx.cloudfront.net/trip-data/yellow_tripdata_2024-04.parquet'',
            ''https://d37ci6vzurychx.cloudfront.net/trip-data/yellow_tripdata_2024-05.parquet'',
            ''https://d37ci6vzurychx.cloudfront.net/trip-data/yellow_tripdata_2024-06.parquet'',
            ''https://d37ci6vzurychx.cloudfront.net/trip-data/yellow_tripdata_2024-07.parquet'',
            ''https://d37ci6vzurychx.cloudfront.net/trip-data/yellow_tripdata_2024-08.parquet'',
            ''https://d37ci6vzurychx.cloudfront.net/trip-data/yellow_tripdata_2024-09.parquet'',
            ''https://d37ci6vzurychx.cloudfront.net/trip-data/yellow_tripdata_2024-10.parquet'',
            ''https://d37ci6vzurychx.cloudfront.net/trip-data/yellow_tripdata_2024-11.parquet'',
            ''https://d37ci6vzurychx.cloudfront.net/trip-data/yellow_tripdata_2024-12.parquet'']"
proof -
  have len: "length (make_urls N) = nat N"
    using assms by (simp add: length_make_urls min_def)
  have pre: "make_urls N = take (nat N) (make_urls 12)"
    using assms by (rule make_urls_prefix)
  have dist: "distinct (make_urls N)"
    unfolding pre using distinct_make_urls_12 by (rule distinct_take)
  have months: "make_urls N = map (\<lambda>month. make_url (2024, month)) [1..N]"
    using assms by (simp add: make_urls_def months_eq min_def)
  show ?thesis using len dist months pre unfolding make_urls_12 by blast
qed

text \<open>A month count of 1 gives the one URL of January 2024.\<close>

theorem month_urls_witness:
  "(1::int) \<le> 1 \<and> (1::int) \<le> 12 \<and> length (make_urls 1) = 1 \<and> distinct (make_urls 1) \<and>
   make_urls 1 =
     [''https://d37ci6vzurychx.cloudfront.net/trip-data/yellow_tripdata_2024-01.parquet'']"
proof -
  have a: "(1::int) \<le> 1" and b: "(1::int) \<le> 12" by simp_all
  note t = month_urls [OF a b]
  from t have "length (make_urls 1) = nat 1" by blast
  then have l: "length (make_urls 1) = 1" by simp
  from t have d: "distinct (make_urls 1)" by blast
  from t have "make_urls 1 = take (nat 1)
           [''https://d37ci6vzurychx.cloudfront.net/trip-data/yellow_tripdata_2024-01.parquet'',
            ''https://d37ci6vzurychx.cloudfront.net/trip-data/yellow_tripdata_2024-02.parquet'',
            ''https://d37ci6vzurychx.cloudfront.net/trip-data/yellow_tripdata_2024-03.parquet'',
            ''https://d37ci6vzurychx.cloudfront.net/trip-data/yellow_tripdata_2024-04.parquet'',
            ''https://d37ci6vzurychx.cloudfront.net/trip-data/yellow_tripdata_2024-05.parquet'',
            ''https://d37ci6vzurychx.cloudfront.net/trip-data/yellow_tripdata_2024-06.parquet'',
            ''https://d37ci6vzurychx.cloudfront.net/trip-data/yellow_tripdata_2024-07.parquet'',
            ''https://d37ci6vzurychx.cloudfront.net/trip-data/yellow_tripdata_2024-08.parquet'',
            ''https://d37ci6vzurychx.cloudfront.net/trip-data/yellow_tripdata_2024-09.parquet'',
            ''https://d37ci6vzurychx.cloudfront.net/trip-data/yellow_tripdata_2024-10.parquet'',
            ''https://d37ci6vzurychx.cloudfront.net/trip-data/yellow_tripdata_2024-11.parquet'',
            ''https://d37ci6vzurychx.cloudfront.net/trip-data/yellow_tripdata_2024-12.parquet'']"
    by blast
  then have u: "make_urls 1 =
     [''https://d37ci6vzurychx.cloudfront.net/trip-data/yellow_tripdata_2024-01.parquet'']"
    by simp
  show ?thesis using a b l d u by blast
qed



text \<open>
  Claim C2 says that the \<open>trip_id\<close> values are unique and strictly increasing in load
  order over the whole load sequence. The appending statement adds
  \<^verbatim>\<open>(SELECT MAX(trip_id) FROM trips)\<close> to the row number; on an empty table that maximum is
  \<^verbatim>\<open>NULL\<close> and so is the sum. In the run below the first month loads no row, and the two
  rows of the second month both get the \<open>trip_id\<close> \<^verbatim>\<open>NULL\<close>. (When the first month
  loads at least one row the numbering is 1, 2, 3, ...: lemma \<open>trip_ids_numbered\<close>.)
\<close>

theorem null_trip_ids_after_empty_first_month:
  "setup_database empty_january_world empty_database 2 =
     Inr (True,
       \<lparr>zones = Some (map rename_zone two_zone_rows),
        trips = Some [select_row None (sample_row 9 1 1), select_row None (sample_row 11 3 2)],
        connected = False\<rparr>) \<and>
   map trip_id [select_row None (sample_row 9 1 1), select_row None (sample_row 11 3 2)] =
     [None, None] \<and>
   \<not> distinct (map trip_id
     [select_row None (sample_row 9 1 1), select_row None (sample_row 11 3 2)])"
  by (simp add: setup_database_def load_zones_def download_zone_lookup_def
      create_zones_as_select_def read_csv_auto_def count_zones_def empty_january_world_def
      empty_database_def make_urls_2 try_load_trips_def create_trips_as_select_def
      insert_into_trips_def select_trips_def keeps_sample_row sql_add_def report_def Let_def
      select_row_def)

end
